theory Spec2Isabelle
  imports Main "HOL-Library.Word"
begin

unbundle bit_operations_syntax

section \<open>Data model of pkt\_retune.c\<close>

text \<open>
  \<open>bladerf_module\<close> is a C enum declared in a header that is not part of the sources
  at hand. A C enum is an integer, and a request can carry a value that is neither of
  the two named enumerators, so the type is \<open>int\<close>; the two enumerators
  \<open>BLADERF_MODULE_RX\<close> and \<open>BLADERF_MODULE_TX\<close> are parameters of the model
  (see \<open>platform\<close> below).
\<close>

type_synonym bladerf_module = int

text \<open>\<open>enum entry_state\<close>, in the order of the source (\<open>ENTRY_STATE_INVALID = 0\<close>).\<close>

datatype entry_state =
    ENTRY_STATE_INVALID
  | ENTRY_STATE_NEW
  | ENTRY_STATE_SCHEDULED
  | ENTRY_STATE_READY

text \<open>
  \<open>struct lms_freq\<close> is declared outside the sources at hand; the record has the six
  members that pkt\_retune.c reads or writes. \<open>vcocap_result\<close> and \<open>flags\<close> are bytes
  (the source stores \<open>0xff\<close> and flag masks in them); the widths of the other members
  play no role in what follows.
\<close>

record lms_freq =
  nint :: "16 word"
  nfrac :: "32 word"
  freqsel :: "8 word"
  vcocap :: "8 word"
  vcocap_result :: "8 word"
  flags :: "8 word"

record queue_entry =
  state :: entry_state
  module :: bladerf_module
  freq :: lms_freq

text \<open>
  \<open>struct queue\<close>: three \<open>uint8_t\<close> members and the array of \<open>RETUNE_QUEUE_MAX\<close>
  entries, here a list (of length 32 in every state the firmware reaches, see
  \<open>queue_ok\<close>).
\<close>

record queue =
  count :: "8 word"
  ins_idx :: "8 word"
  rem_idx :: "8 word"
  entries :: "queue_entry list"

definition RETUNE_QUEUE_MAX :: int where
  "RETUNE_QUEUE_MAX = 32"

definition QUEUE_FULL :: "8 word" where
  "QUEUE_FULL = 0xff"

definition QUEUE_EMPTY :: "8 word" where
  "QUEUE_EMPTY = 0xfe"

section \<open>The queue operations\<close>

text \<open>
  \<open>(idx + 1) & (RETUNE_QUEUE_MAX - 1)\<close>: the \<open>uint8_t\<close> index is promoted to \<open>int\<close>,
  incremented and masked there, and the result is stored back into a \<open>uint8_t\<close>.
\<close>

definition idx_advance :: "8 word \<Rightarrow> 8 word" where
  "idx_advance i = word_of_int ((uint i + 1) AND (RETUNE_QUEUE_MAX - 1))"

text \<open>
  \<open>enqueue_retune\<close>. The test \<open>q.count >= RETUNE_QUEUE_MAX\<close> compares the promoted
  count with the \<open>int\<close> constant. The three stores go to the slot \<open>q.ins_idx\<close>.
  The function returns its result byte and the new queue.
\<close>

definition enqueue_retune :: "lms_freq \<Rightarrow> bladerf_module \<Rightarrow> queue \<Rightarrow> 8 word \<times> queue" where
  "enqueue_retune f m qu =
     (if RETUNE_QUEUE_MAX \<le> uint (count qu) then (QUEUE_FULL, qu)
      else
        let i = unat (ins_idx qu);
            qu1 = qu\<lparr>entries := (entries qu)[i := (entries qu ! i)\<lparr>freq := f\<rparr>]\<rparr>;
            qu2 = qu1\<lparr>entries := (entries qu1)[i := (entries qu1 ! i)\<lparr>state := ENTRY_STATE_NEW\<rparr>]\<rparr>;
            qu3 = qu2\<lparr>entries := (entries qu2)[i := (entries qu2 ! i)\<lparr>module := m\<rparr>]\<rparr>;
            qu4 = qu3\<lparr>ins_idx := idx_advance (ins_idx qu3)\<rparr>;
            qu5 = qu4\<lparr>count := count qu4 + 1\<rparr>
        in (count qu5, qu5))"

text \<open>
  \<open>dequeue_retune\<close>. The argument \<open>e\<close> is the caller's pointer: \<open>None\<close> for \<open>NULL\<close>,
  \<open>Some v\<close> for a pointer to a caller-owned \<open>struct queue_entry\<close> that holds \<open>v\<close>.
  The second component of the result is the caller's structure after the call.

  The source's copy is \<open>memcpy(&e, &q.entries[q.rem_idx], sizeof(e[0]))\<close>: its
  destination is \<open>&e\<close>, the address of the parameter variable, not \<open>e\<close>, the
  structure it points to. The bytes land in the callee's own parameter (which is not
  read again), and nothing is stored through the pointer: the caller's structure keeps
  its contents. (The copy is longer than the parameter variable; what lies behind it in
  the callee's frame is outside this model.)
\<close>

definition dequeue_retune :: "queue_entry option \<Rightarrow> queue \<Rightarrow> 8 word \<times> queue_entry option \<times> queue" where
  "dequeue_retune e qu =
     (if count qu = 0 then (QUEUE_EMPTY, e, qu)
      else
        let out = (case e of None \<Rightarrow> None | Some v \<Rightarrow> Some v);
            qu1 = qu\<lparr>rem_idx := idx_advance (rem_idx qu)\<rparr>;
            qu2 = qu1\<lparr>count := count qu1 - 1\<rparr>
        in (count qu2, out, qu2))"

text \<open>
  \<open>peek_next_retune\<close> returns \<open>NULL\<close> or the address of the slot \<open>q.rem_idx\<close>;
  the address of a slot is its index.
\<close>

definition peek_next_retune :: "queue \<Rightarrow> nat option" where
  "peek_next_retune qu = (if count qu = 0 then None else Some (unat (rem_idx qu)))"

text \<open>\<open>pkt_retune_init\<close>: \<open>memset(&q, 0, sizeof(q))\<close>.\<close>

definition zero_entry :: queue_entry where
  "zero_entry = \<lparr>state = ENTRY_STATE_INVALID, module = 0,
     freq = \<lparr>nint = 0, nfrac = 0, freqsel = 0, vcocap = 0, vcocap_result = 0, flags = 0\<rparr>\<rparr>"

definition pkt_retune_init :: queue where
  "pkt_retune_init = \<lparr>count = 0, ins_idx = 0, rem_idx = 0,
     entries = replicate (nat RETUNE_QUEUE_MAX) zero_entry\<rparr>"

section \<open>What the file uses from the rest of the firmware\<close>

text \<open>
  The headers and the drivers that pkt\_retune.c relies on are not part of the sources
  at hand, so the model takes them as parameters, collected in one record:
  \<^item> the two enumerators of \<open>bladerf_module\<close>;
  \<^item> the macros \<open>NIOS_PKT_RETUNE_NOW\<close>, \<open>NIOS_PKT_RETUNERESP_FLAG_SUCCESS\<close>,
    \<open>NIOS_PKT_RETUNERESP_FLAG_TSVTUNE_VALID\<close>, \<open>LMS_FREQ_FLAGS_LOW_BAND\<close> and
    \<open>LMS_FREQ_FLAGS_FORCE_VCOCAP\<close> (the flag macros as the byte that reaches the
    \<open>uint8_t\<close> variables they are stored in and masked with);
  \<^item> whether \<open>BLADERF_NIOS_DEBUG\<close> is defined, which decides what
    \<open>INCREMENT_ERROR_COUNT\<close> expands to;
  \<^item> the three hardware primitives, as functions on an abstract hardware state \<open>'hw\<close>:
    \<open>lms_set_precalculated_frequency\<close> returns its status and the contents of the
    \<open>struct lms_freq\<close> it was given a pointer to, as it leaves it; \<open>band_select\<close>
    returns its status; \<open>time_tamer_read\<close> returns the timestamp.
    The device argument is \<open>NULL\<close> at every call and is left out.
\<close>

record 'hw platform =
  BLADERF_MODULE_RX :: bladerf_module
  BLADERF_MODULE_TX :: bladerf_module
  NIOS_PKT_RETUNE_NOW :: "64 word"
  NIOS_PKT_RETUNERESP_FLAG_SUCCESS :: "8 word"
  NIOS_PKT_RETUNERESP_FLAG_TSVTUNE_VALID :: "8 word"
  LMS_FREQ_FLAGS_LOW_BAND :: "8 word"
  LMS_FREQ_FLAGS_FORCE_VCOCAP :: "8 word"
  BLADERF_NIOS_DEBUG :: bool
  lms_set_precalculated_frequency :: "bladerf_module \<Rightarrow> lms_freq \<Rightarrow> 'hw \<Rightarrow> int \<times> lms_freq \<times> 'hw"
  band_select :: "bladerf_module \<Rightarrow> bool \<Rightarrow> 'hw \<Rightarrow> int \<times> 'hw"
  time_tamer_read :: "bladerf_module \<Rightarrow> 'hw \<Rightarrow> 64 word \<times> 'hw"

text \<open>
  The state of the firmware as far as this file is concerned: the file-scope queue \<open>q\<close>
  (field \<open>glob_q\<close>), the debug counter \<open>pkt_retune_error_count\<close>, and the hardware.
\<close>

record 'hw fw_state =
  glob_q :: queue
  pkt_retune_error_count :: "32 word"
  hw :: 'hw

text \<open>What \<open>nios_pkt_retune_unpack\<close> hands to \<open>pkt_retune\<close>.\<close>

record retune_request =
  req_module :: bladerf_module
  req_timestamp :: "64 word"
  req_nint :: "16 word"
  req_nfrac :: "32 word"
  req_freqsel :: "8 word"
  req_vcocap :: "8 word"
  req_low_band :: bool
  req_quick_tune :: bool

text \<open>What \<open>pkt_retune\<close> hands to \<open>nios_pkt_retune_resp_pack\<close>.\<close>

record retune_response =
  resp_duration :: "64 word"
  resp_vcocap_result :: "8 word"
  resp_flags :: "8 word"

section \<open>The scheduler step\<close>

definition INCREMENT_ERROR_COUNT :: "'hw platform \<Rightarrow> 'hw fw_state \<Rightarrow> 'hw fw_state" where
  "INCREMENT_ERROR_COUNT pf s =
     (if BLADERF_NIOS_DEBUG pf
      then s\<lparr>pkt_retune_error_count := pkt_retune_error_count s + 1\<rparr>
      else s)"

text \<open>
  \<open>pkt_retune_work\<close>. \<open>e\<close> is the slot \<open>peek_next_retune\<close> points to. In the
  \<open>ENTRY_STATE_READY\<close> case the tuning primitive gets a pointer to the slot's \<open>freq\<close>,
  so what it leaves there is written back to the slot, and \<open>low_band\<close> is read from
  the slot after that call. The \<open>default\<close> label of the \<open>switch\<close> is the remaining
  constructor.
\<close>

definition pkt_retune_work :: "'hw platform \<Rightarrow> 'hw fw_state \<Rightarrow> 'hw fw_state" where
  "pkt_retune_work pf s =
     (case peek_next_retune (glob_q s) of
        None \<Rightarrow> s
      | Some e \<Rightarrow>
          (case state (entries (glob_q s) ! e) of
             ENTRY_STATE_NEW \<Rightarrow>
               s\<lparr>glob_q := (glob_q s)\<lparr>entries :=
                    (entries (glob_q s))[e := (entries (glob_q s) ! e)\<lparr>state := ENTRY_STATE_SCHEDULED\<rparr>]\<rparr>\<rparr>
           | ENTRY_STATE_SCHEDULED \<Rightarrow> s
           | ENTRY_STATE_READY \<Rightarrow>
               let ent = entries (glob_q s) ! e;
                   (status, f', hw1) = lms_set_precalculated_frequency pf (module ent) (freq ent) (hw s);
                   s1 = s\<lparr>hw := hw1,
                          glob_q := (glob_q s)\<lparr>entries := (entries (glob_q s))[e := ent\<lparr>freq := f'\<rparr>]\<rparr>\<rparr>;
                   s2 = (if status \<noteq> 0 then INCREMENT_ERROR_COUNT pf s1
                         else
                           let ent1 = entries (glob_q s1) ! e;
                               low_band = (flags (freq ent1) AND LMS_FREQ_FLAGS_LOW_BAND pf \<noteq> 0);
                               (status2, hw2) = band_select pf (module ent1) low_band (hw s1);
                               s1' = s1\<lparr>hw := hw2\<rparr>
                           in if status2 \<noteq> 0 then INCREMENT_ERROR_COUNT pf s1' else s1');
                   (r, out, q') = dequeue_retune None (glob_q s2)
               in s2\<lparr>glob_q := q'\<rparr>
           | ENTRY_STATE_INVALID \<Rightarrow> INCREMENT_ERROR_COUNT pf s))"

section \<open>The request dispatcher\<close>

text \<open>
  The local \<open>f\<close> of \<open>pkt_retune\<close> once the request is unpacked and the flags are
  set (the statements before the test of the timestamp).
\<close>

definition request_freq :: "'hw platform \<Rightarrow> retune_request \<Rightarrow> lms_freq" where
  "request_freq pf b =
     (let f = \<lparr>nint = req_nint b, nfrac = req_nfrac b, freqsel = req_freqsel b,
               vcocap = req_vcocap b, vcocap_result = 0xff, flags = 0\<rparr>;
          f = (if req_low_band b then f\<lparr>flags := LMS_FREQ_FLAGS_LOW_BAND pf\<rparr> else f\<lparr>flags := 0\<rparr>);
          f = (if req_quick_tune b then f\<lparr>flags := flags f OR LMS_FREQ_FLAGS_FORCE_VCOCAP pf\<rparr> else f)
      in f)"

text \<open>
  The code from the label \<open>out\<close> on: clear the success flag unless \<open>status\<close> is 0,
  and pack the response.
\<close>

definition retune_out ::
  "'hw platform \<Rightarrow> int \<Rightarrow> 64 word \<Rightarrow> lms_freq \<Rightarrow> 8 word \<Rightarrow> 'hw fw_state \<Rightarrow> retune_response \<times> 'hw fw_state" where
  "retune_out pf status retune_duration f fl s =
     (let fl' = (if status \<noteq> 0 then fl AND NOT (NIOS_PKT_RETUNERESP_FLAG_SUCCESS pf) else fl)
      in (\<lparr>resp_duration = retune_duration, resp_vcocap_result = vcocap_result f, resp_flags = fl'\<rparr>, s))"

text \<open>
  \<open>pkt_retune\<close>. Each \<open>goto out\<close> is a call of \<open>retune_out\<close> with the values the
  locals have at that point (\<open>retune_duration\<close> still 0). The tuning primitive gets
  a pointer to the local \<open>f\<close>, whose contents after the call are \<open>f1\<close>.
\<close>

definition pkt_retune ::
  "'hw platform \<Rightarrow> retune_request \<Rightarrow> 'hw fw_state \<Rightarrow> retune_response \<times> 'hw fw_state" where
  "pkt_retune pf b s =
     (let fl = NIOS_PKT_RETUNERESP_FLAG_SUCCESS pf;
          m = req_module b;
          f = request_freq pf b
      in
        if req_timestamp b = NIOS_PKT_RETUNE_NOW pf then
          (if m = BLADERF_MODULE_RX pf \<or> m = BLADERF_MODULE_TX pf then
             let (retune_start, hw1) = time_tamer_read pf m (hw s);
                 (status, f1, hw2) = lms_set_precalculated_frequency pf m f hw1
             in
               if status \<noteq> 0 then retune_out pf status 0 f1 fl (s\<lparr>hw := hw2\<rparr>)
               else
                 let fl1 = fl OR NIOS_PKT_RETUNERESP_FLAG_TSVTUNE_VALID pf;
                     (status2, hw3) = band_select pf m (req_low_band b) hw2
                 in
                   if status2 \<noteq> 0 then retune_out pf status2 0 f1 fl1 (s\<lparr>hw := hw3\<rparr>)
                   else
                     let (retune_end, hw4) = time_tamer_read pf m hw3
                     in retune_out pf 0 (retune_end - retune_start) f1 fl1 (s\<lparr>hw := hw4\<rparr>)
           else retune_out pf (- 1) 0 f fl s)
        else
          let (queue_size, q') = enqueue_retune f m (glob_q s);
              s' = s\<lparr>glob_q := q'\<rparr>
          in retune_out pf (if queue_size = QUEUE_FULL then - 1 else 0) 0 f fl s')"

section \<open>Drivers and concrete values\<close>

text \<open>
  A sequence of inserts: \<open>enqueue_retune\<close> called once per element, in order; the
  result bytes are collected.
\<close>

fun enqueue_all :: "(lms_freq \<times> bladerf_module) list \<Rightarrow> queue \<Rightarrow> 8 word list \<times> queue" where
  "enqueue_all [] qu = ([], qu)"
| "enqueue_all ((f, m) # xs) qu =
     (let (r, qu1) = enqueue_retune f m qu;
          (rs, qu2) = enqueue_all xs qu1
      in (r # rs, qu2))"

text \<open>
  A sequence of removes the way \<open>pkt_retune_work\<close> performs them: look at the slot
  \<open>peek_next_retune\<close> points to, then \<open>dequeue_retune(NULL)\<close>. The slot contents
  seen before each remove and the result bytes are collected.
\<close>

fun drain :: "nat \<Rightarrow> queue \<Rightarrow> (queue_entry option \<times> 8 word) list \<times> queue" where
  "drain 0 qu = ([], qu)"
| "drain (Suc n) qu =
     (let h = map_option (\<lambda>i. entries qu ! i) (peek_next_retune qu);
          (r, out, qu1) = dequeue_retune None qu;
          (rs, qu2) = drain n qu1
      in ((h, r) # rs, qu2))"

text \<open>
  A sequence of removes through the out argument: the caller passes the address of its
  own structure (holding \<open>buf\<close>) to \<open>dequeue_retune\<close> and reads the structure
  after each call; what it reads is collected.
\<close>

fun remove_all :: "nat \<Rightarrow> queue_entry \<Rightarrow> queue \<Rightarrow> queue_entry list \<times> queue" where
  "remove_all 0 buf qu = ([], qu)"
| "remove_all (Suc n) buf qu =
     (let (r, out, qu1) = dequeue_retune (Some buf) qu;
          buf1 = (case out of None \<Rightarrow> buf | Some v \<Rightarrow> v);
          (es, qu2) = remove_all n buf1 qu1
      in (buf1 # es, qu2))"

text \<open>The slot contents that \<open>enqueue_retune f m\<close> stores, for the pair \<open>(f, m)\<close>.\<close>

definition new_entry :: "lms_freq \<times> bladerf_module \<Rightarrow> queue_entry" where
  "new_entry x = \<lparr>state = ENTRY_STATE_NEW, module = snd x, freq = fst x\<rparr>"

text \<open>
  The states of the queue that the firmware reaches from \<open>pkt_retune_init\<close>: 32 slots,
  at most 32 live entries, both indices inside the array, and the insert index
  \<open>count\<close> slots ahead of the remove index.
\<close>

definition queue_ok :: "queue \<Rightarrow> bool" where
  "queue_ok qu \<longleftrightarrow>
     length (entries qu) = 32 \<and> unat (count qu) \<le> 32 \<and>
     unat (ins_idx qu) < 32 \<and> unat (rem_idx qu) < 32 \<and>
     unat (ins_idx qu) = (unat (rem_idx qu) + unat (count qu)) mod 32"

text \<open>The live entries of the ring, oldest first.\<close>

definition q_list :: "queue \<Rightarrow> queue_entry list" where
  "q_list qu = map (\<lambda>k. entries qu ! ((unat (rem_idx qu) + k) mod 32)) [0..<unat (count qu)]"

text \<open>
  One concrete platform, used to evaluate the theorems below at concrete inputs (the
  theorems themselves hold for every platform). Its hardware state says what the two
  primitives will return, and holds a clock that ticks at every read.
\<close>

record sim_hw =
  sim_tune_status :: int
  sim_band_status :: int
  sim_clock :: "64 word"

definition sim_platform :: "sim_hw platform" where
  "sim_platform =
     \<lparr>BLADERF_MODULE_RX = 0, BLADERF_MODULE_TX = 1, NIOS_PKT_RETUNE_NOW = 0,
      NIOS_PKT_RETUNERESP_FLAG_SUCCESS = 2, NIOS_PKT_RETUNERESP_FLAG_TSVTUNE_VALID = 1,
      LMS_FREQ_FLAGS_LOW_BAND = 1, LMS_FREQ_FLAGS_FORCE_VCOCAP = 2,
      BLADERF_NIOS_DEBUG = True,
      lms_set_precalculated_frequency = (\<lambda>m f h. (sim_tune_status h, f\<lparr>vcocap_result := vcocap f\<rparr>, h)),
      band_select = (\<lambda>m low_band h. (sim_band_status h, h)),
      time_tamer_read = (\<lambda>m h. (sim_clock h, h\<lparr>sim_clock := sim_clock h + 1\<rparr>))\<rparr>"

definition sim_request :: "64 word \<Rightarrow> bladerf_module \<Rightarrow> retune_request" where
  "sim_request ts m =
     \<lparr>req_module = m, req_timestamp = ts, req_nint = 40, req_nfrac = 7, req_freqsel = 3,
      req_vcocap = 17, req_low_band = True, req_quick_tune = False\<rparr>"

definition sim_state :: "int \<Rightarrow> int \<Rightarrow> queue \<Rightarrow> sim_hw fw_state" where
  "sim_state tune_st band_st qu =
     \<lparr>glob_q = qu, pkt_retune_error_count = 0,
      hw = \<lparr>sim_tune_status = tune_st, sim_band_status = band_st, sim_clock = 100\<rparr>\<rparr>"

definition sim_freq :: "8 word \<Rightarrow> lms_freq" where
  "sim_freq fl = \<lparr>nint = 40, nfrac = 7, freqsel = 3, vcocap = 17, vcocap_result = 0xff, flags = fl\<rparr>"

definition sim_entry :: "entry_state \<Rightarrow> bladerf_module \<Rightarrow> 8 word \<Rightarrow> queue_entry" where
  "sim_entry st m fl = \<lparr>state = st, module = m, freq = sim_freq fl\<rparr>"

definition sim_ready_queue :: queue where
  "sim_ready_queue =
     \<lparr>count = 1, ins_idx = 1, rem_idx = 0,
      entries = (sim_entry ENTRY_STATE_READY 0 1) # replicate 31 zero_entry\<rparr>"

section \<open>Basic facts about the queue operations\<close>

text \<open>The counter and the index step, read as numbers.\<close>

lemma count_lt_max_iff: "uint (c :: 8 word) < RETUNE_QUEUE_MAX \<longleftrightarrow> unat c < 32"
proof -
  have "uint c < RETUNE_QUEUE_MAX \<longleftrightarrow> c < 32"
    by (simp add: word_less_def RETUNE_QUEUE_MAX_def)
  also have "\<dots> \<longleftrightarrow> unat c < 32"
    by (simp add: word_less_nat_alt)
  finally show ?thesis .
qed

lemma count_incr_uint:
  assumes "uint (c :: 8 word) < RETUNE_QUEUE_MAX"
  shows "uint (c + 1) = uint c + 1"
proof -
  have "uint c + 1 < 256" using assms by (simp add: RETUNE_QUEUE_MAX_def)
  then show ?thesis by (simp add: uint_word_ariths take_bit_eq_mod)
qed

lemma count_incr_unat:
  assumes "unat (c :: 8 word) < 32"
  shows "unat (c + 1) = unat c + 1"
proof -
  have "unat c + unat (1 :: 8 word) < 2 ^ LENGTH(8)" using assms by simp
  then have "unat (c + 1) = unat c + unat (1 :: 8 word)"
    by (rule unat_add_lem [THEN iffD1])
  then show ?thesis by simp
qed

lemma count_decr_uint:
  assumes "(c :: 8 word) \<noteq> 0"
  shows "uint (c - 1) = uint c - 1"
proof -
  have "uint c \<noteq> 0" using assms by (simp add: uint_0_iff)
  then have "1 \<le> uint c" using uint_nonnegative [of c] by linarith
  then have "uint (1 :: 8 word) \<le> uint c" by simp
  then have "uint (c - 1) = uint c - uint (1 :: 8 word)"
    by (rule uint_sub_lem [THEN iffD1])
  then show ?thesis by simp
qed

lemma idx_advance_uint: "uint (idx_advance i) = (uint i + 1) mod 32"
proof -
  have m: "(RETUNE_QUEUE_MAX - 1) = mask 5"
    by (simp add: RETUNE_QUEUE_MAX_def mask_eq_exp_minus_1)
  have a: "(uint i + 1) AND (RETUNE_QUEUE_MAX - 1) = (uint i + 1) mod 32"
    unfolding m by (simp add: take_bit_eq_mod flip: take_bit_eq_mask)
  have "(uint i + 1) mod 32 < 256" 
    by (rule less_trans[OF pos_mod_bound]) simp_all
  moreover have "0 \<le> (uint i + 1) mod 32" by simp
  ultimately show ?thesis
    unfolding idx_advance_def a
    by (simp add: uint_word_of_int take_bit_eq_mod)
qed

lemma idx_advance_unat: "unat (idx_advance i) = (unat i + 1) mod 32"
proof -
  have "unat (idx_advance i) = nat ((uint i + 1) mod 32)"
    by (simp add: idx_advance_uint flip: nat_uint_eq)
  also have "\<dots> = nat (uint i + 1) mod 32"
    by (simp add: nat_mod_distrib)
  also have "nat (uint i + 1) = unat i + 1"
    by (simp add: nat_add_distrib)
  finally show ?thesis .
qed

lemma idx_advance_0: "idx_advance 0 = 1"
  by (simp add: idx_advance_def RETUNE_QUEUE_MAX_def)

lemma init_simps:
  "count pkt_retune_init = 0" "ins_idx pkt_retune_init = 0" "rem_idx pkt_retune_init = 0"
  "length (entries pkt_retune_init) = 32"
  by (simp_all add: pkt_retune_init_def RETUNE_QUEUE_MAX_def)

text \<open>One call of \<open>enqueue_retune\<close> on a queue that is not full.\<close>

lemma enqueue_size:
  assumes "uint (count qu) < RETUNE_QUEUE_MAX"
  shows "fst (enqueue_retune f m qu) = count qu + 1"
  using assms by (simp add: enqueue_retune_def Let_def)

lemma enqueue_size_not_full:
  assumes "uint (count qu) < RETUNE_QUEUE_MAX"
  shows "fst (enqueue_retune f m qu) \<noteq> QUEUE_FULL"
proof -
  have "uint (count qu + 1) \<noteq> uint QUEUE_FULL"
    unfolding count_incr_uint[OF assms] using assms by (simp add: RETUNE_QUEUE_MAX_def QUEUE_FULL_def)
  then show ?thesis
    unfolding enqueue_size[OF assms] by auto
qed

lemma enqueue_queue:
  assumes "uint (count qu) < RETUNE_QUEUE_MAX"
  shows "snd (enqueue_retune f m qu) =
     qu\<lparr>entries := (entries qu)[unat (ins_idx qu) :=
            (entries qu ! unat (ins_idx qu))\<lparr>freq := f, state := ENTRY_STATE_NEW, module := m\<rparr>],
        ins_idx := idx_advance (ins_idx qu),
        count := count qu + 1\<rparr>"
proof (cases "unat (ins_idx qu) < length (entries qu)")
  case True
  then show ?thesis using assms by (simp add: enqueue_retune_def Let_def)
next
  case False
  then show ?thesis using assms by (simp add: enqueue_retune_def Let_def list_update_beyond)
qed

lemma entry_written:
  "(e :: queue_entry)\<lparr>freq := f, state := st, module := m\<rparr> = \<lparr>state = st, module = m, freq = f\<rparr>"
  by (cases e) simp

lemma enqueue_unat:
  assumes "unat (count qu) < 32"
  shows "unat (count (snd (enqueue_retune f m qu))) = unat (count qu) + 1"
    and "unat (ins_idx (snd (enqueue_retune f m qu))) = (unat (ins_idx qu) + 1) mod 32"
    and "rem_idx (snd (enqueue_retune f m qu)) = rem_idx qu"
    and "fst (enqueue_retune f m qu) = count qu + 1"
    and "entries (snd (enqueue_retune f m qu)) =
           (entries qu)[unat (ins_idx qu) := \<lparr>state = ENTRY_STATE_NEW, module = m, freq = f\<rparr>]"
proof -
  have c: "uint (count qu) < RETUNE_QUEUE_MAX" using assms by (simp add: count_lt_max_iff)
  note q = enqueue_queue [OF c, of f m]
  show "unat (count (snd (enqueue_retune f m qu))) = unat (count qu) + 1"
    unfolding q using count_incr_unat [OF assms] by simp
  show "unat (ins_idx (snd (enqueue_retune f m qu))) = (unat (ins_idx qu) + 1) mod 32"
    unfolding q by (simp add: idx_advance_unat)
  show "rem_idx (snd (enqueue_retune f m qu)) = rem_idx qu"
    unfolding q by simp
  show "fst (enqueue_retune f m qu) = count qu + 1"
    by (rule enqueue_size [OF c])
  show "entries (snd (enqueue_retune f m qu)) =
           (entries qu)[unat (ins_idx qu) := \<lparr>state = ENTRY_STATE_NEW, module = m, freq = f\<rparr>]"
    unfolding q by (simp add: entry_written)
qed

text \<open>
  One call of \<open>dequeue_retune\<close>: on an empty queue nothing changes; otherwise the
  remove index advances, the count drops by one, the new count is returned, the insert
  index and the slots stay, and in both cases the caller's structure is as it was.
\<close>

lemma dequeue_empty:
  assumes "count qu = 0"
  shows "dequeue_retune e qu = (QUEUE_EMPTY, e, qu)"
  using assms by (simp add: dequeue_retune_def)

lemma dequeue_null:
  assumes "count qu \<noteq> 0"
  shows "dequeue_retune None qu =
     (count qu - 1, None, qu\<lparr>rem_idx := idx_advance (rem_idx qu), count := count qu - 1\<rparr>)"
  using assms by (simp add: dequeue_retune_def Let_def)

lemma dequeue_out_unchanged: "fst (snd (dequeue_retune e qu)) = e"
  by (simp add: dequeue_retune_def Let_def split: option.splits)

lemma dequeue_unat:
  assumes "count qu \<noteq> 0"
  shows "unat (count (snd (snd (dequeue_retune e qu)))) = unat (count qu) - 1"
    and "unat (rem_idx (snd (snd (dequeue_retune e qu)))) = (unat (rem_idx qu) + 1) mod 32"
    and "ins_idx (snd (snd (dequeue_retune e qu))) = ins_idx qu"
    and "entries (snd (snd (dequeue_retune e qu))) = entries qu"
    and "fst (dequeue_retune e qu) = count qu - 1"
    and "fst (snd (dequeue_retune e qu)) = e"
  using assms
  by (simp_all add: dequeue_retune_def Let_def idx_advance_unat unat_minus_one split: option.splits)

lemma remove_all_buffer: "fst (remove_all n buf qu) = replicate n buf"
proof (induction n arbitrary: qu)
  case 0
  show ?case by simp
next
  case (Suc n)
  obtain r out qu1 where d: "dequeue_retune (Some buf) qu = (r, out, qu1)"
    by (cases "dequeue_retune (Some buf) qu")
  obtain es qu2 where e: "remove_all n buf qu1 = (es, qu2)"
    by (cases "remove_all n buf qu1")
  have "out = Some buf" using dequeue_out_unchanged [of "Some buf" qu] d by simp
  then show ?case using d e Suc.IH [of qu1] by simp
qed

text \<open>The \<open>ENTRY_STATE_READY\<close> case of \<open>pkt_retune_work\<close>, with the primitives' results named.\<close>

lemma work_ready_unfold:
  assumes p: "peek_next_retune (glob_q s) = Some e"
    and rdy: "state (entries (glob_q s) ! e) = ENTRY_STATE_READY"
    and i: "e < length (entries (glob_q s))"
    and tune: "lms_set_precalculated_frequency pf (module (entries (glob_q s) ! e))
                 (freq (entries (glob_q s) ! e)) (hw s) = (status, f1, hw1)"
    and band: "band_select pf (module (entries (glob_q s) ! e))
                 (flags f1 AND LMS_FREQ_FLAGS_LOW_BAND pf \<noteq> 0) hw1 = (status2, hw2)"
    and s1: "s1 = s\<lparr>hw := hw1,
               glob_q := (glob_q s)\<lparr>entries := (entries (glob_q s))[e := (entries (glob_q s) ! e)\<lparr>freq := f1\<rparr>]\<rparr>\<rparr>"
    and s2: "s2 = (if status \<noteq> 0 then INCREMENT_ERROR_COUNT pf s1
                   else if status2 \<noteq> 0 then INCREMENT_ERROR_COUNT pf (s1\<lparr>hw := hw2\<rparr>)
                   else s1\<lparr>hw := hw2\<rparr>)"
  shows "pkt_retune_work pf s =
           (case dequeue_retune None (glob_q s2) of (r, out, q') \<Rightarrow> s2\<lparr>glob_q := q'\<rparr>)"
proof -
  have ent1: "entries (glob_q s1) ! e = (entries (glob_q s) ! e)\<lparr>freq := f1\<rparr>"
    unfolding s1 using i by simp
  have h: "hw s1 = hw1" unfolding s1 by simp
  have band1: "band_select pf (module (entries (glob_q s1) ! e))
      (flags (freq (entries (glob_q s1) ! e)) AND LMS_FREQ_FLAGS_LOW_BAND pf \<noteq> 0) (hw s1) = (status2, hw2)"
    unfolding ent1 h using band by simp
  show ?thesis
    apply (simp only: pkt_retune_work_def p rdy option.case entry_state.case)
    apply (simp only: Let_def tune prod.case)
    apply (simp only: s1 [symmetric])
    apply (simp only: band1 prod.case)
    apply (simp only: s2)
    done
qed

lemma sim_platform_simps:
  "BLADERF_MODULE_RX sim_platform = 0"
  "BLADERF_MODULE_TX sim_platform = 1"
  "NIOS_PKT_RETUNE_NOW sim_platform = 0"
  "NIOS_PKT_RETUNERESP_FLAG_SUCCESS sim_platform = 2"
  "NIOS_PKT_RETUNERESP_FLAG_TSVTUNE_VALID sim_platform = 1"
  "LMS_FREQ_FLAGS_LOW_BAND sim_platform = 1"
  "LMS_FREQ_FLAGS_FORCE_VCOCAP sim_platform = 2"
  "BLADERF_NIOS_DEBUG sim_platform = True"
  "lms_set_precalculated_frequency sim_platform m f h = (sim_tune_status h, f\<lparr>vcocap_result := vcocap f\<rparr>, h)"
  "band_select sim_platform m lb h = (sim_band_status h, h)"
  "time_tamer_read sim_platform m h = (sim_clock h, h\<lparr>sim_clock := sim_clock h + 1\<rparr>)"
  by (simp_all add: sim_platform_def)

section \<open>The ring as a list\<close>

text \<open>
  On the states described by \<open>queue_ok\<close>, \<open>enqueue_retune\<close> appends to the list of
  live entries and \<open>dequeue_retune\<close> removes its head, which is the slot
  \<open>peek_next_retune\<close> points to. So the slots leave the ring in the order in which
  they were filled, with the contents they were filled with.
\<close>

lemma queue_ok_init: "queue_ok pkt_retune_init"
  by (simp add: queue_ok_def init_simps)

lemma ring_distinct:
  assumes "k < c" and "c < 32"
  shows "(r + k) mod 32 \<noteq> (r + c) mod (32 :: nat)"
proof
  assume "(r + k) mod 32 = (r + c) mod 32"
  then have "(r + c) mod 32 = (r + k) mod 32" by simp
  moreover have "r + k \<le> r + c" using assms by simp
  ultimately have "32 dvd (r + c) - (r + k)" by (simp only: mod_eq_dvd_iff_nat)
  then have "32 dvd c - k" by simp
  moreover have "0 < c - k" and "c - k < 32" using assms by simp_all
  ultimately show False using nat_dvd_not_less by blast
qed

lemma enqueue_q_list:
  assumes ok: "queue_ok qu" and c: "unat (count qu) < 32"
  shows "queue_ok (snd (enqueue_retune f m qu))"
    and "q_list (snd (enqueue_retune f m qu)) =
           q_list qu @ [\<lparr>state = ENTRY_STATE_NEW, module = m, freq = f\<rparr>]"
proof -
  let ?q = "snd (enqueue_retune f m qu)"
  let ?new = "\<lparr>state = ENTRY_STATE_NEW, module = m, freq = f\<rparr>"
  let ?r = "unat (rem_idx qu)" and ?c = "unat (count qu)" and ?i = "unat (ins_idx qu)"
  note st = enqueue_unat [OF c, of f m]
  have len: "length (entries qu) = 32" and i: "?i = (?r + ?c) mod 32" and il: "?i < 32"
    and rl: "?r < 32"
    using ok by (simp_all add: queue_ok_def)
  have "(?i + 1) mod 32 = (?r + (?c + 1)) mod 32"
    unfolding i by (simp add: mod_simps)
  then show "queue_ok ?q"
    using c len rl by (simp add: queue_ok_def st)
  have old: "map (\<lambda>k. (entries qu)[?i := ?new] ! ((?r + k) mod 32)) [0..<?c] =
             map (\<lambda>k. entries qu ! ((?r + k) mod 32)) [0..<?c]"
  proof (rule map_cong [OF refl])
    fix k assume "k \<in> set [0..<?c]"
    then have "k < ?c" by simp
    then have "(?r + k) mod 32 \<noteq> ?i" unfolding i using c by (rule ring_distinct)
    then show "(entries qu)[?i := ?new] ! ((?r + k) mod 32) = entries qu ! ((?r + k) mod 32)"
      by simp
  qed
  have last: "(entries qu)[?i := ?new] ! ((?r + ?c) mod 32) = ?new"
    using il len by (simp add: i [symmetric])
  show "q_list ?q = q_list qu @ [?new]"
    by (simp add: q_list_def st old last)
qed

lemma dequeue_q_list:
  assumes ok: "queue_ok qu" and c: "count qu \<noteq> 0"
  shows "queue_ok (snd (snd (dequeue_retune e qu)))"
    and "q_list (snd (snd (dequeue_retune e qu))) = tl (q_list qu)"
    and "map_option (\<lambda>i. entries qu ! i) (peek_next_retune qu) = Some (hd (q_list qu))"
proof -
  let ?q = "snd (snd (dequeue_retune e qu))"
  let ?r = "unat (rem_idx qu)" and ?c = "unat (count qu)" and ?i = "unat (ins_idx qu)"
  note st = dequeue_unat [OF c, of e]
  have pos: "0 < ?c" using c by (simp add: unat_gt_0)
  have len: "length (entries qu) = 32" and i: "?i = (?r + ?c) mod 32" and il: "?i < 32"
    and rl: "?r < 32" and cl: "?c \<le> 32"
    using ok by (simp_all add: queue_ok_def)
  have "?r + ?c = ?r + 1 + (?c - 1)" using pos by simp
  then have "(?r + ?c) mod 32 = ((?r + 1) mod 32 + (?c - 1)) mod 32"
    by (simp only: mod_add_left_eq)
  then have "?i = ((?r + 1) mod 32 + (?c - 1)) mod 32"
    using i by simp
  then show "queue_ok ?q"
    using len il cl unfolding queue_ok_def st by simp
  have up: "[0..<?c] = 0 # map Suc [0..<?c - 1]"
    using pos by (simp add: upt_conv_Cons map_Suc_upt del: upt_Suc)
  have "q_list qu = entries qu ! ?r # map (\<lambda>k. entries qu ! ((?r + Suc k) mod 32)) [0..<?c - 1]"
    unfolding q_list_def up using rl by (simp add: comp_def)
  moreover have "q_list ?q = map (\<lambda>k. entries qu ! ((?r + Suc k) mod 32)) [0..<?c - 1]"
    by (simp add: q_list_def st mod_simps)
  ultimately show "q_list ?q = tl (q_list qu)"
    and "map_option (\<lambda>i. entries qu ! i) (peek_next_retune qu) = Some (hd (q_list qu))"
    using c by (simp_all add: peek_next_retune_def)
qed

lemma enqueue_all_unat:
  assumes "unat (count qu) + length xs \<le> 32"
  shows "unat (count (snd (enqueue_all xs qu))) = unat (count qu) + length xs
       \<and> unat (ins_idx (snd (enqueue_all xs qu))) mod 32 = (unat (ins_idx qu) + length xs) mod 32
       \<and> (xs \<noteq> [] \<longrightarrow> unat (ins_idx (snd (enqueue_all xs qu))) < 32)
       \<and> rem_idx (snd (enqueue_all xs qu)) = rem_idx qu
       \<and> map unat (fst (enqueue_all xs qu)) = [unat (count qu) + 1 ..< unat (count qu) + 1 + length xs]"
  using assms
proof (induction xs arbitrary: qu)
  case Nil
  then show ?case by simp
next
  case (Cons x xs)
  obtain f m where x: "x = (f, m)" by (cases x)
  let ?q1 = "snd (enqueue_retune f m qu)"
  have c: "unat (count qu) < 32" using Cons.prems by simp
  note st = enqueue_unat [OF c, of f m]
  have pre: "unat (count ?q1) + length xs \<le> 32"
    using Cons.prems st(1) by simp
  note ih = Cons.IH [OF pre]
  have e: "enqueue_all (x # xs) qu =
      (fst (enqueue_retune f m qu) # fst (enqueue_all xs ?q1), snd (enqueue_all xs ?q1))"
    by (simp add: x split: prod.splits)
  have r: "unat (fst (enqueue_retune f m qu)) = unat (count qu) + 1"
    using st(1) enqueue_queue [of qu f m] c by (simp add: st(4) count_incr_unat)
  have l: "[unat (count qu) + 1 ..< unat (count qu) + 1 + length (x # xs)] =
      (unat (count qu) + 1) # [unat (count ?q1) + 1 ..< unat (count ?q1) + 1 + length xs]"
    by (simp add: st(1) upt_conv_Cons del: upt_Suc)
  have i: "unat (ins_idx (snd (enqueue_all xs ?q1))) mod 32 = (unat (ins_idx qu) + length (x # xs)) mod 32"
    using ih st(2) by (simp add: mod_simps)
  have b: "unat (ins_idx (snd (enqueue_all xs ?q1))) < 32"
  proof (cases "xs = []")
    case True
    then show ?thesis using st(2) by simp
  next
    case False
    then show ?thesis using ih by simp
  qed
  show ?case
    unfolding e l using ih st(1,3) i b r by simp
qed

lemma drain_unat:
  assumes "n \<le> unat (count qu)"
  shows "unat (count (snd (drain n qu))) = unat (count qu) - n
       \<and> unat (rem_idx (snd (drain n qu))) mod 32 = (unat (rem_idx qu) + n) mod 32
       \<and> (n \<noteq> 0 \<longrightarrow> unat (rem_idx (snd (drain n qu))) < 32)
       \<and> ins_idx (snd (drain n qu)) = ins_idx qu
       \<and> entries (snd (drain n qu)) = entries qu
       \<and> map (\<lambda>d. unat (snd d)) (fst (drain n qu)) = rev [unat (count qu) - n ..< unat (count qu)]"
  using assms
proof (induction n arbitrary: qu)
  case 0
  then show ?case by simp
next
  case (Suc n)
  let ?q1 = "snd (snd (dequeue_retune None qu))"
  have c: "count qu \<noteq> 0" using Suc.prems by auto
  note st = dequeue_unat [OF c, of None]
  have pre: "n \<le> unat (count ?q1)" using Suc.prems st(1) by simp
  note ih = Suc.IH [OF pre]
  have e: "drain (Suc n) qu =
      ((map_option (\<lambda>i. entries qu ! i) (peek_next_retune qu), fst (dequeue_retune None qu))
         # fst (drain n ?q1), snd (drain n ?q1))"
    by (simp add: split: prod.splits)
  have r: "unat (fst (dequeue_retune None qu)) = unat (count qu) - 1"
    using st(5) c by (simp add: unat_minus_one)
  have "0 < unat (count qu)" using c by (simp add: unat_gt_0)
  then have s: "Suc (unat (count qu) - 1) = unat (count qu)" by simp
  have "[unat (count qu) - Suc n ..< Suc (unat (count qu) - 1)] =
      [unat (count qu) - 1 - n ..< unat (count qu) - 1] @ [unat (count qu) - 1]"
    by (simp del: upt_Suc add: upt_Suc_append)
  then have l: "rev [unat (count qu) - Suc n ..< unat (count qu)] =
      (unat (count qu) - 1) # rev [unat (count ?q1) - n ..< unat (count ?q1)]"
    unfolding s by (simp add: st(1))
  have i: "unat (rem_idx (snd (drain n ?q1))) mod 32 = (unat (rem_idx qu) + Suc n) mod 32"
    using ih st(2) by (simp add: mod_simps)
  have b: "unat (rem_idx (snd (drain n ?q1))) < 32"
  proof (cases "n = 0")
    case True
    then show ?thesis using st(2) by simp
  next
    case False
    then show ?thesis using ih by simp
  qed
  show ?case
    unfolding e l using ih st(1,3,4) i b r by simp
qed

lemma enqueue_all_q_list:
  assumes "queue_ok qu" and "unat (count qu) + length xs \<le> 32"
  shows "queue_ok (snd (enqueue_all xs qu))
       \<and> q_list (snd (enqueue_all xs qu)) = q_list qu @ map new_entry xs"
  using assms
proof (induction xs arbitrary: qu)
  case Nil
  then show ?case by simp
next
  case (Cons x xs)
  obtain f m where x: "x = (f, m)" by (cases x)
  let ?q1 = "snd (enqueue_retune f m qu)"
  have c: "unat (count qu) < 32" using Cons.prems by simp
  note st = enqueue_unat [OF c, of f m]
  note ql = enqueue_q_list [OF Cons.prems(1) c, of f m]
  have pre: "unat (count ?q1) + length xs \<le> 32"
    using Cons.prems st(1) by simp
  note ih = Cons.IH [OF ql(1) pre]
  have e: "snd (enqueue_all (x # xs) qu) = snd (enqueue_all xs ?q1)"
    by (simp add: x split: prod.splits)
  show ?case
    unfolding e using ih ql(2) by (simp add: x new_entry_def)
qed

lemma drain_q_list:
  assumes "queue_ok qu" and "n \<le> unat (count qu)"
  shows "queue_ok (snd (drain n qu))
       \<and> q_list (snd (drain n qu)) = drop n (q_list qu)
       \<and> map fst (fst (drain n qu)) = map Some (take n (q_list qu))"
  using assms
proof (induction n arbitrary: qu)
  case 0
  then show ?case by simp
next
  case (Suc n)
  let ?q1 = "snd (snd (dequeue_retune None qu))"
  have c: "count qu \<noteq> 0" using Suc.prems by auto
  note st = dequeue_unat [OF c, of None]
  note ql = dequeue_q_list(1,2) [OF Suc.prems(1) c, of None] dequeue_q_list(3) [OF Suc.prems(1) c]
  have pre: "n \<le> unat (count ?q1)" using Suc.prems st(1) by simp
  note ih = Suc.IH [OF ql(1) pre]
  have e: "drain (Suc n) qu =
      ((map_option (\<lambda>i. entries qu ! i) (peek_next_retune qu), fst (dequeue_retune None qu))
         # fst (drain n ?q1), snd (drain n ?q1))"
    by (simp add: split: prod.splits)
  have ne: "q_list qu \<noteq> []"
    using c by (simp add: q_list_def unat_0_iff)
  then obtain y ys where y: "q_list qu = y # ys" by (cases "q_list qu") auto
  show ?case
    unfolding e using ih ql(2,3) by (simp add: y)
qed

lemma fifo_order_of_slots:
  assumes ok: "queue_ok qu" and c: "count qu = 0" and n: "length xs \<le> 32"
  shows "map fst (fst (drain (length xs) (snd (enqueue_all xs qu)))) = map (\<lambda>x. Some (new_entry x)) xs"
proof -
  let ?q1 = "snd (enqueue_all xs qu)"
  have pre: "unat (count qu) + length xs \<le> 32" using c n by simp
  have e: "q_list qu = []" using c by (simp add: q_list_def)
  from enqueue_all_q_list [OF ok pre] e
  have ok1: "queue_ok ?q1" and l1: "q_list ?q1 = map new_entry xs" by simp_all
  have "unat (count ?q1) = length xs"
    using enqueue_all_unat [OF pre] c by simp
  then have pre2: "length xs \<le> unat (count ?q1)" by simp
  from drain_q_list [OF ok1 pre2] l1 show ?thesis by simp
qed

section \<open>The invariant\<close>

text \<open>
  \<open>queue_ok\<close> holds after \<open>pkt_retune_init\<close> (\<open>queue_ok_init\<close>) and is kept by
  every operation of the file, so it holds in every state the firmware reaches.
\<close>

lemma queue_ok_entries_update:
  assumes "queue_ok qu"
  shows "queue_ok (qu\<lparr>entries := (entries qu)[i := x]\<rparr>)"
  using assms by (simp add: queue_ok_def)

lemma queue_ok_enqueue:
  assumes "queue_ok qu"
  shows "queue_ok (snd (enqueue_retune f m qu))"
proof (cases "unat (count qu) < 32")
  case True
  then show ?thesis by (rule enqueue_q_list(1) [OF assms])
next
  case False
  then have "RETUNE_QUEUE_MAX \<le> uint (count qu)"
    using count_lt_max_iff [of "count qu"] by simp
  then show ?thesis using assms by (simp add: enqueue_retune_def)
qed

lemma queue_ok_dequeue:
  assumes "queue_ok qu"
  shows "queue_ok (snd (snd (dequeue_retune e qu)))"
proof (cases "count qu = 0")
  case True
  then show ?thesis using assms by (simp add: dequeue_empty)
next
  case False
  then show ?thesis by (rule dequeue_q_list(1) [OF assms])
qed

lemma pkt_retune_queue:
  "glob_q (snd (pkt_retune pf b s)) =
     (if req_timestamp b = NIOS_PKT_RETUNE_NOW pf then glob_q s
      else snd (enqueue_retune (request_freq pf b) (req_module b) (glob_q s)))"
proof -
  obtain t0 hw1 where a: "time_tamer_read pf (req_module b) (hw s) = (t0, hw1)"
    by (cases "time_tamer_read pf (req_module b) (hw s)")
  obtain st f1 hw2 where b: "lms_set_precalculated_frequency pf (req_module b) (request_freq pf b) hw1 = (st, f1, hw2)"
    by (cases "lms_set_precalculated_frequency pf (req_module b) (request_freq pf b) hw1")
  obtain st2 hw3 where c: "band_select pf (req_module b) (req_low_band b) hw2 = (st2, hw3)"
    by (cases "band_select pf (req_module b) (req_low_band b) hw2")
  obtain t1 hw4 where d: "time_tamer_read pf (req_module b) hw3 = (t1, hw4)"
    by (cases "time_tamer_read pf (req_module b) hw3")
  obtain qs q' where e: "enqueue_retune (request_freq pf b) (req_module b) (glob_q s) = (qs, q')"
    by (cases "enqueue_retune (request_freq pf b) (req_module b) (glob_q s)")
  show ?thesis
    using a b c d e by (simp add: pkt_retune_def retune_out_def Let_def)
qed

lemma queue_ok_pkt_retune:
  assumes "queue_ok (glob_q s)"
  shows "queue_ok (glob_q (snd (pkt_retune pf b s)))"
  unfolding pkt_retune_queue using assms by (simp add: queue_ok_enqueue)

lemma queue_ok_pkt_retune_work:
  assumes ok: "queue_ok (glob_q s)"
  shows "queue_ok (glob_q (pkt_retune_work pf s))"
proof (cases "peek_next_retune (glob_q s)")
  case None
  then show ?thesis using ok by (simp add: pkt_retune_work_def)
next
  case (Some e)
  then have e: "e = unat (rem_idx (glob_q s))" and c: "count (glob_q s) \<noteq> 0"
    by (auto simp: peek_next_retune_def split: if_splits)
  have el: "e < length (entries (glob_q s))"
    using ok e by (simp add: queue_ok_def)
  show ?thesis
  proof (cases "state (entries (glob_q s) ! e)")
    case ENTRY_STATE_INVALID
    then show ?thesis using ok Some
      by (simp add: pkt_retune_work_def INCREMENT_ERROR_COUNT_def)
  next
    case ENTRY_STATE_NEW
    then show ?thesis using Some queue_ok_entries_update [OF ok]
      by (simp add: pkt_retune_work_def)
  next
    case ENTRY_STATE_SCHEDULED
    then show ?thesis using ok Some by (simp add: pkt_retune_work_def)
  next
    case ENTRY_STATE_READY
    obtain st f1 hw1 where tune: "lms_set_precalculated_frequency pf (module (entries (glob_q s) ! e))
        (freq (entries (glob_q s) ! e)) (hw s) = (st, f1, hw1)"
      by (cases "lms_set_precalculated_frequency pf (module (entries (glob_q s) ! e))
        (freq (entries (glob_q s) ! e)) (hw s)")
    obtain st2 hw2 where band: "band_select pf (module (entries (glob_q s) ! e))
        (flags f1 AND LMS_FREQ_FLAGS_LOW_BAND pf \<noteq> 0) hw1 = (st2, hw2)"
      by (cases "band_select pf (module (entries (glob_q s) ! e))
        (flags f1 AND LMS_FREQ_FLAGS_LOW_BAND pf \<noteq> 0) hw1")
    define s1 where "s1 = s\<lparr>hw := hw1,
        glob_q := (glob_q s)\<lparr>entries := (entries (glob_q s))[e := (entries (glob_q s) ! e)\<lparr>freq := f1\<rparr>]\<rparr>\<rparr>"
    define s2 where "s2 = (if st \<noteq> 0 then INCREMENT_ERROR_COUNT pf s1
        else if st2 \<noteq> 0 then INCREMENT_ERROR_COUNT pf (s1\<lparr>hw := hw2\<rparr>) else s1\<lparr>hw := hw2\<rparr>)"
    have q2: "glob_q s2 = glob_q s1"
      by (simp add: s2_def INCREMENT_ERROR_COUNT_def)
    have ok1: "queue_ok (glob_q s1)"
      using queue_ok_entries_update [OF ok] by (simp add: s1_def)
    have w: "pkt_retune_work pf s =
        (case dequeue_retune None (glob_q s2) of (r, out, q') \<Rightarrow> s2\<lparr>glob_q := q'\<rparr>)"
      by (rule work_ready_unfold [OF Some ENTRY_STATE_READY el tune band s1_def s2_def])
    have "glob_q (pkt_retune_work pf s) = snd (snd (dequeue_retune None (glob_q s2)))"
      unfolding w by (simp split: prod.splits)
    then show ?thesis using queue_ok_dequeue [OF ok1, of None] by (simp add: q2)
  qed
qed

section \<open>Properties of the queue\<close>

text \<open>
  Claim C1. Inserts followed by removes should hand back the inserted entries in FIFO
  order with their field values. The only way \<open>dequeue_retune\<close> hands an entry to its
  caller is the copy into the structure the argument points to, and that copy goes to
  the address of the parameter instead. Evaluated at two inserts into the initial queue
  followed by two removes through a caller structure that holds \<open>zero_entry\<close>: the
  caller reads \<open>zero_entry\<close> twice, not the two inserted entries, although the two
  slots retired by the removes are exactly the inserted entries, in order
  (\<open>fifo_order_of_slots\<close>).
\<close>

theorem remove_yields_caller_buffer:
  "fst (remove_all 2 zero_entry
         (snd (enqueue_all [(sim_freq 1, 0), (sim_freq 0, 1)] pkt_retune_init)))
     = [zero_entry, zero_entry]
   \<and> map fst (fst (drain 2 (snd (enqueue_all [(sim_freq 1, 0), (sim_freq 0, 1)] pkt_retune_init))))
     = [Some (new_entry (sim_freq 1, 0)), Some (new_entry (sim_freq 0, 1))]
   \<and> [zero_entry, zero_entry] \<noteq> [new_entry (sim_freq 1, 0), new_entry (sim_freq 0, 1)]"
proof -
  let ?xs = "[(sim_freq 1, 0 :: int), (sim_freq 0, 1)]"
  have a: "fst (remove_all 2 zero_entry (snd (enqueue_all ?xs pkt_retune_init))) = [zero_entry, zero_entry]"
    by (simp only: remove_all_buffer) (simp add: numeral_2_eq_2)
  have "map fst (fst (drain (length ?xs) (snd (enqueue_all ?xs pkt_retune_init))))
      = map (\<lambda>x. Some (new_entry x)) ?xs"
    by (rule fifo_order_of_slots [OF queue_ok_init]) (simp_all add: init_simps)
  then have b: "map fst (fst (drain 2 (snd (enqueue_all ?xs pkt_retune_init))))
      = [Some (new_entry (sim_freq 1, 0)), Some (new_entry (sim_freq 0, 1))]"
    by (simp add: numeral_2_eq_2)
  have c: "[zero_entry, zero_entry] \<noteq> [new_entry (sim_freq 1, 0), new_entry (sim_freq 0, 1)]"
    by (simp add: new_entry_def zero_entry_def)
  show ?thesis using a b c by simp
qed

text \<open>
  Claim C2. On a non-empty queue, \<open>dequeue_retune\<close> with a non-null argument should
  copy the slot at the remove index into the caller's structure. Evaluated at a queue
  whose only entry is a ready entry for module 0, with a caller structure holding
  \<open>zero_entry\<close>: the call returns the new count 0, advances the remove index to 1,
  and leaves the caller's structure at \<open>zero_entry\<close>, which is not the entry in the
  slot. (The other parts of the claim hold: \<open>dequeue_empty\<close>, \<open>dequeue_unat\<close>.)
\<close>

theorem dequeue_out_not_written:
  "dequeue_retune (Some zero_entry) sim_ready_queue
     = (0, Some zero_entry, sim_ready_queue\<lparr>rem_idx := 1, count := 0\<rparr>)
   \<and> entries sim_ready_queue ! unat (rem_idx sim_ready_queue) = sim_entry ENTRY_STATE_READY 0 1
   \<and> sim_entry ENTRY_STATE_READY 0 1 \<noteq> zero_entry"
proof -
  have r: "rem_idx sim_ready_queue = 0" "count sim_ready_queue = 1"
    by (simp_all add: sim_ready_queue_def)
  have a: "dequeue_retune (Some zero_entry) sim_ready_queue
     = (0, Some zero_entry, sim_ready_queue\<lparr>rem_idx := 1, count := 0\<rparr>)"
    by (simp add: dequeue_retune_def Let_def r idx_advance_0)
  have b: "entries sim_ready_queue ! unat (rem_idx sim_ready_queue) = sim_entry ENTRY_STATE_READY 0 1"
    by (simp add: sim_ready_queue_def)
  have c: "sim_entry ENTRY_STATE_READY 0 1 \<noteq> zero_entry"
    by (simp add: sim_entry_def zero_entry_def)
  show ?thesis using a b c by simp
qed

text \<open>
  Claim C3. When the queue holds \<open>RETUNE_QUEUE_MAX\<close> (32) entries, \<open>enqueue_retune\<close>
  returns \<open>QUEUE_FULL\<close> and the queue it leaves is the queue it found: count, both
  indices and every slot are unchanged.
\<close>

theorem enqueue_full_unchanged:
  assumes "uint (count qu) = RETUNE_QUEUE_MAX"
  shows "enqueue_retune f m qu = (QUEUE_FULL, qu)"
  using assms by (simp add: enqueue_retune_def)

theorem enqueue_full_unchanged_witness:
  "uint (count (pkt_retune_init\<lparr>count := 32\<rparr>)) = RETUNE_QUEUE_MAX
   \<and> enqueue_retune (freq (sim_entry ENTRY_STATE_NEW 0 1)) 0 (pkt_retune_init\<lparr>count := 32\<rparr>)
       = (QUEUE_FULL, pkt_retune_init\<lparr>count := 32\<rparr>)"
proof -
  have h: "uint (count (pkt_retune_init\<lparr>count := 32\<rparr>)) = RETUNE_QUEUE_MAX"
    by (simp add: RETUNE_QUEUE_MAX_def)
  show ?thesis using h enqueue_full_unchanged [OF h] by simp
qed

text \<open>
  Claim C9. From a queue with count 0 and both indices inside the array, 32 inserts
  followed by 32 removes all succeed (the inserts return the sizes 1 to 32, the removes
  31 down to 0, never \<open>QUEUE_FULL\<close> or \<open>QUEUE_EMPTY\<close>) and leave count 0 and both
  indices where they were.
\<close>

theorem fill_and_drain_restores_indices:
  assumes c: "count qu = 0"
    and i: "unat (ins_idx qu) < 32"
    and r: "unat (rem_idx qu) < 32"
    and n: "length xs = 32"
  shows "map unat (fst (enqueue_all xs qu)) = [1..<33]
       \<and> QUEUE_FULL \<notin> set (fst (enqueue_all xs qu))
       \<and> map (\<lambda>d. unat (snd d)) (fst (drain 32 (snd (enqueue_all xs qu)))) = rev [0..<32]
       \<and> QUEUE_EMPTY \<notin> snd ` set (fst (drain 32 (snd (enqueue_all xs qu))))
       \<and> count (snd (drain 32 (snd (enqueue_all xs qu)))) = 0
       \<and> ins_idx (snd (drain 32 (snd (enqueue_all xs qu)))) = ins_idx qu
       \<and> rem_idx (snd (drain 32 (snd (enqueue_all xs qu)))) = rem_idx qu"
proof -
  let ?q1 = "snd (enqueue_all xs qu)"
  let ?q2 = "snd (drain 32 ?q1)"
  have pre: "unat (count qu) + length xs \<le> 32" using c n by simp
  note a = enqueue_all_unat [OF pre]
  have c1: "unat (count ?q1) = 32" using a c n by simp
  have pre2: "32 \<le> unat (count ?q1)" using c1 by simp
  note b = drain_unat [OF pre2]
  have xs: "xs \<noteq> []" using n by auto
  have rs: "map unat (fst (enqueue_all xs qu)) = [1..<33]"
    using a c n by simp
  have ds: "map (\<lambda>d. unat (snd d)) (fst (drain 32 ?q1)) = rev [0..<32]"
    using b c1 by simp
  have full: "QUEUE_FULL \<notin> set (fst (enqueue_all xs qu))"
  proof
    assume "QUEUE_FULL \<in> set (fst (enqueue_all xs qu))"
    then have "unat QUEUE_FULL \<in> set (map unat (fst (enqueue_all xs qu)))"
      by (simp only: set_map) (rule imageI)
    then show False unfolding rs by (simp add: QUEUE_FULL_def)
  qed
  have empty: "QUEUE_EMPTY \<notin> snd ` set (fst (drain 32 ?q1))"
  proof
    assume "QUEUE_EMPTY \<in> snd ` set (fst (drain 32 ?q1))"
    then have "unat QUEUE_EMPTY \<in> unat ` snd ` set (fst (drain 32 ?q1))"
      by (rule imageI)
    also have "unat ` snd ` set (fst (drain 32 ?q1)) = set (map (\<lambda>d. unat (snd d)) (fst (drain 32 ?q1)))"
      by (simp add: image_image)
    finally show False unfolding ds by (simp add: QUEUE_EMPTY_def)
  qed
  have "unat (count ?q2) = 0" using b c1 by simp
  then have c2: "count ?q2 = 0" by (simp add: unat_0_iff)
  have "unat (ins_idx ?q1) = unat (ins_idx qu)"
  proof -
    have "unat (ins_idx ?q1) mod 32 = (unat (ins_idx qu) + 32) mod 32" using a n by simp
    moreover have "unat (ins_idx ?q1) < 32" using a xs by simp
    ultimately show ?thesis using i by simp
  qed
  then have i2: "ins_idx ?q2 = ins_idx qu"
    using b by (simp add: word_unat_eq_iff)
  have "unat (rem_idx ?q2) = unat (rem_idx qu)"
  proof -
    have "unat (rem_idx ?q2) mod 32 = (unat (rem_idx ?q1) + 32) mod 32" using b by simp
    moreover have "unat (rem_idx ?q2) < 32" using b by simp
    moreover have "rem_idx ?q1 = rem_idx qu" using a by simp
    ultimately show ?thesis using r by simp
  qed
  then have r2: "rem_idx ?q2 = rem_idx qu" by (simp add: word_unat_eq_iff)
  show ?thesis using rs full ds empty c2 i2 r2 by simp
qed

theorem fill_and_drain_restores_indices_witness:
  "count pkt_retune_init = 0
   \<and> unat (ins_idx pkt_retune_init) < 32 \<and> unat (rem_idx pkt_retune_init) < 32
   \<and> length (replicate 32 (freq (sim_entry ENTRY_STATE_NEW 0 1), 0 :: int)) = 32
   \<and> map unat (fst (enqueue_all (replicate 32 (freq (sim_entry ENTRY_STATE_NEW 0 1), 0)) pkt_retune_init)) = [1..<33]
   \<and> count (snd (drain 32 (snd (enqueue_all (replicate 32 (freq (sim_entry ENTRY_STATE_NEW 0 1), 0)) pkt_retune_init)))) = 0
   \<and> ins_idx (snd (drain 32 (snd (enqueue_all (replicate 32 (freq (sim_entry ENTRY_STATE_NEW 0 1), 0)) pkt_retune_init)))) = 0
   \<and> rem_idx (snd (drain 32 (snd (enqueue_all (replicate 32 (freq (sim_entry ENTRY_STATE_NEW 0 1), 0)) pkt_retune_init)))) = 0"
proof -
  let ?xs = "replicate 32 (freq (sim_entry ENTRY_STATE_NEW 0 1), 0 :: int)"
  have c: "count pkt_retune_init = 0" by (simp add: init_simps)
  have i: "unat (ins_idx pkt_retune_init) < 32" by (simp add: init_simps)
  have r: "unat (rem_idx pkt_retune_init) < 32" by (simp add: init_simps)
  have n: "length ?xs = 32" by simp
  show ?thesis
    using c i r n fill_and_drain_restores_indices [OF c i r n]
    by (simp add: init_simps)
qed

section \<open>Properties of the scheduler step\<close>

text \<open>
  Claim C4. When the head entry is \<open>ENTRY_STATE_READY\<close>, \<open>pkt_retune_work\<close> calls the
  tuning primitive on the head slot and, if that succeeds, \<open>band_select\<close> with the
  low-band flag of the slot; whatever the two statuses are, the head entry is removed
  (the remove index advances, the count drops by one; the slot keeps what the tuning
  primitive left in its \<open>freq\<close>). A failure of either primitive shows only in the error
  counter, which goes up by one in a debug build and does not exist otherwise.
\<close>

theorem ready_entry_always_removed:
  assumes c: "count (glob_q s) \<noteq> 0"
    and i: "unat (rem_idx (glob_q s)) < length (entries (glob_q s))"
    and rdy: "state (entries (glob_q s) ! unat (rem_idx (glob_q s))) = ENTRY_STATE_READY"
    and tune: "lms_set_precalculated_frequency pf
                 (module (entries (glob_q s) ! unat (rem_idx (glob_q s))))
                 (freq (entries (glob_q s) ! unat (rem_idx (glob_q s)))) (hw s) = (status, f1, hw1)"
    and band: "band_select pf (module (entries (glob_q s) ! unat (rem_idx (glob_q s))))
                 (flags f1 AND LMS_FREQ_FLAGS_LOW_BAND pf \<noteq> 0) hw1 = (status2, hw2)"
  shows "glob_q (pkt_retune_work pf s) =
           (glob_q s)\<lparr>entries := (entries (glob_q s))[unat (rem_idx (glob_q s)) :=
                          (entries (glob_q s) ! unat (rem_idx (glob_q s)))\<lparr>freq := f1\<rparr>],
                      rem_idx := idx_advance (rem_idx (glob_q s)),
                      count := count (glob_q s) - 1\<rparr>
       \<and> uint (count (glob_q (pkt_retune_work pf s))) = uint (count (glob_q s)) - 1
       \<and> hw (pkt_retune_work pf s) = (if status \<noteq> 0 then hw1 else hw2)
       \<and> pkt_retune_error_count (pkt_retune_work pf s) =
           (if BLADERF_NIOS_DEBUG pf \<and> (status \<noteq> 0 \<or> status2 \<noteq> 0)
            then pkt_retune_error_count s + 1 else pkt_retune_error_count s)"
proof -
  define e where "e = unat (rem_idx (glob_q s))"
  define s1 where "s1 = s\<lparr>hw := hw1,
               glob_q := (glob_q s)\<lparr>entries := (entries (glob_q s))[e := (entries (glob_q s) ! e)\<lparr>freq := f1\<rparr>]\<rparr>\<rparr>"
  define s2 where "s2 = (if status \<noteq> 0 then INCREMENT_ERROR_COUNT pf s1
                   else if status2 \<noteq> 0 then INCREMENT_ERROR_COUNT pf (s1\<lparr>hw := hw2\<rparr>)
                   else s1\<lparr>hw := hw2\<rparr>)"
  have p: "peek_next_retune (glob_q s) = Some e"
    using c by (simp add: peek_next_retune_def e_def)
  have q2: "glob_q s2 = glob_q s1"
    by (simp add: s2_def INCREMENT_ERROR_COUNT_def)
  have c2: "count (glob_q s2) \<noteq> 0"
    unfolding q2 using c by (simp add: s1_def)
  have w: "pkt_retune_work pf s =
       s2\<lparr>glob_q := (glob_q s2)\<lparr>rem_idx := idx_advance (rem_idx (glob_q s2)), count := count (glob_q s2) - 1\<rparr>\<rparr>"
    using work_ready_unfold[OF p rdy[folded e_def] i[folded e_def] tune[folded e_def] band[folded e_def] s1_def s2_def]
    by (simp add: dequeue_null[OF c2])
  have a: "glob_q (pkt_retune_work pf s) =
           (glob_q s)\<lparr>entries := (entries (glob_q s))[e := (entries (glob_q s) ! e)\<lparr>freq := f1\<rparr>],
                      rem_idx := idx_advance (rem_idx (glob_q s)),
                      count := count (glob_q s) - 1\<rparr>"
    unfolding w by (simp add: q2) (simp add: s1_def)
  have b: "hw (pkt_retune_work pf s) = (if status \<noteq> 0 then hw1 else hw2)"
    unfolding w by (simp add: s2_def INCREMENT_ERROR_COUNT_def s1_def)
  have d: "pkt_retune_error_count (pkt_retune_work pf s) =
           (if BLADERF_NIOS_DEBUG pf \<and> (status \<noteq> 0 \<or> status2 \<noteq> 0)
            then pkt_retune_error_count s + 1 else pkt_retune_error_count s)"
    unfolding w by (simp add: s2_def INCREMENT_ERROR_COUNT_def s1_def)
  have "uint (count (glob_q (pkt_retune_work pf s))) = uint (count (glob_q s)) - 1"
    unfolding a using count_decr_uint[OF c] by simp
  with a b d show ?thesis unfolding e_def by simp
qed

theorem ready_entry_always_removed_witness:
  "count (glob_q (sim_state (- 1) 0 sim_ready_queue)) \<noteq> 0
   \<and> state (entries (glob_q (sim_state (- 1) 0 sim_ready_queue)) !
        unat (rem_idx (glob_q (sim_state (- 1) 0 sim_ready_queue)))) = ENTRY_STATE_READY
   \<and> fst (lms_set_precalculated_frequency sim_platform 0 (freq (sim_entry ENTRY_STATE_READY 0 1))
        (hw (sim_state (- 1) 0 sim_ready_queue))) \<noteq> 0
   \<and> count (glob_q (pkt_retune_work sim_platform (sim_state (- 1) 0 sim_ready_queue))) = 0
   \<and> rem_idx (glob_q (pkt_retune_work sim_platform (sim_state (- 1) 0 sim_ready_queue))) = 1
   \<and> pkt_retune_error_count (pkt_retune_work sim_platform (sim_state (- 1) 0 sim_ready_queue)) = 1"
proof -
  let ?s = "sim_state (- 1) 0 sim_ready_queue"
  let ?ent = "sim_entry ENTRY_STATE_READY 0 1"
  have q: "glob_q ?s = sim_ready_queue" by (simp add: sim_state_def)
  have e: "entries sim_ready_queue ! unat (rem_idx sim_ready_queue) = ?ent"
    by (simp add: sim_ready_queue_def)
  have c: "count (glob_q ?s) \<noteq> 0"
    unfolding q by (simp add: sim_ready_queue_def)
  have i: "unat (rem_idx (glob_q ?s)) < length (entries (glob_q ?s))"
    unfolding q by (simp add: sim_ready_queue_def)
  have rdy: "state (entries (glob_q ?s) ! unat (rem_idx (glob_q ?s))) = ENTRY_STATE_READY"
    by (simp add: q e) (simp add: sim_entry_def)
  have tune: "lms_set_precalculated_frequency sim_platform
      (module (entries (glob_q ?s) ! unat (rem_idx (glob_q ?s))))
      (freq (entries (glob_q ?s) ! unat (rem_idx (glob_q ?s)))) (hw ?s)
      = (- 1, (freq ?ent)\<lparr>vcocap_result := vcocap (freq ?ent)\<rparr>, hw ?s)"
    by (simp add: q e sim_platform_simps) (simp add: sim_state_def)
  have band: "band_select sim_platform (module (entries (glob_q ?s) ! unat (rem_idx (glob_q ?s))))
      (flags ((freq ?ent)\<lparr>vcocap_result := vcocap (freq ?ent)\<rparr>) AND LMS_FREQ_FLAGS_LOW_BAND sim_platform \<noteq> 0)
      (hw ?s) = (0, hw ?s)"
    by (simp add: sim_platform_simps) (simp add: sim_state_def)
  have t: "fst (lms_set_precalculated_frequency sim_platform 0 (freq ?ent) (hw ?s)) \<noteq> 0"
    by (simp add: sim_platform_simps) (simp add: sim_state_def)
  have r: "rem_idx sim_ready_queue = 0" "count sim_ready_queue = 1"
    by (simp_all add: sim_ready_queue_def)
  have k: "pkt_retune_error_count ?s = 0" by (simp add: sim_state_def)
  show ?thesis
    using c rdy t ready_entry_always_removed [OF c i rdy tune band]
    by (simp add: q r k idx_advance_0 sim_platform_simps)
qed

section \<open>Properties of the request dispatcher\<close>

text \<open>
  Claim C5. A request with a timestamp other than \<open>NIOS_PKT_RETUNE_NOW\<close> and a valid
  module: if the queue holds fewer than 32 entries, the count goes up by exactly one,
  and the response carries the success flag and duration 0; if the queue holds 32
  entries, the response has the success flag clear and duration 0 (and the queue is
  unchanged).
\<close>

theorem deferred_request:
  assumes ts: "req_timestamp b \<noteq> NIOS_PKT_RETUNE_NOW pf"
    and m: "req_module b = BLADERF_MODULE_RX pf \<or> req_module b = BLADERF_MODULE_TX pf"
  shows "(uint (count (glob_q s)) < RETUNE_QUEUE_MAX \<longrightarrow>
            count (glob_q (snd (pkt_retune pf b s))) = count (glob_q s) + 1 \<and>
            uint (count (glob_q (snd (pkt_retune pf b s)))) = uint (count (glob_q s)) + 1 \<and>
            resp_flags (fst (pkt_retune pf b s)) = NIOS_PKT_RETUNERESP_FLAG_SUCCESS pf \<and>
            resp_duration (fst (pkt_retune pf b s)) = 0)
       \<and> (uint (count (glob_q s)) = RETUNE_QUEUE_MAX \<longrightarrow>
            resp_flags (fst (pkt_retune pf b s)) AND NIOS_PKT_RETUNERESP_FLAG_SUCCESS pf = 0 \<and>
            resp_duration (fst (pkt_retune pf b s)) = 0 \<and>
            glob_q (snd (pkt_retune pf b s)) = glob_q s)"
proof (intro conjI impI)
  let ?f = "request_freq pf b" and ?m = "req_module b"
  assume c: "uint (count (glob_q s)) < RETUNE_QUEUE_MAX"
  obtain qs q' where e: "enqueue_retune ?f ?m (glob_q s) = (qs, q')"
    by (cases "enqueue_retune ?f ?m (glob_q s)")
  from enqueue_size_not_full [OF c, of ?f ?m] e have qs: "qs \<noteq> QUEUE_FULL" by simp
  from enqueue_queue [OF c, of ?f ?m] e
  have q': "count q' = count (glob_q s) + 1" by simp
  have r: "pkt_retune pf b s =
      (\<lparr>resp_duration = 0, resp_vcocap_result = vcocap_result ?f,
        resp_flags = NIOS_PKT_RETUNERESP_FLAG_SUCCESS pf\<rparr>, s\<lparr>glob_q := q'\<rparr>)"
    using ts e qs by (simp add: pkt_retune_def retune_out_def Let_def)
  show "count (glob_q (snd (pkt_retune pf b s))) = count (glob_q s) + 1"
    using r q' by simp
  then show "uint (count (glob_q (snd (pkt_retune pf b s)))) = uint (count (glob_q s)) + 1"
    using count_incr_uint [OF c] by simp
  show "resp_flags (fst (pkt_retune pf b s)) = NIOS_PKT_RETUNERESP_FLAG_SUCCESS pf"
    using r by simp
  show "resp_duration (fst (pkt_retune pf b s)) = 0" using r by simp
next
  let ?f = "request_freq pf b" and ?m = "req_module b"
  assume c: "uint (count (glob_q s)) = RETUNE_QUEUE_MAX"
  have e: "enqueue_retune ?f ?m (glob_q s) = (QUEUE_FULL, glob_q s)"
    using c by (simp add: enqueue_retune_def)
  have r: "pkt_retune pf b s =
      (\<lparr>resp_duration = 0, resp_vcocap_result = vcocap_result ?f,
        resp_flags = NIOS_PKT_RETUNERESP_FLAG_SUCCESS pf AND NOT (NIOS_PKT_RETUNERESP_FLAG_SUCCESS pf)\<rparr>, s)"
    using ts e by (simp add: pkt_retune_def retune_out_def Let_def)
  show "resp_flags (fst (pkt_retune pf b s)) AND NIOS_PKT_RETUNERESP_FLAG_SUCCESS pf = 0"
    using r by simp
  show "resp_duration (fst (pkt_retune pf b s)) = 0" using r by simp
  show "glob_q (snd (pkt_retune pf b s)) = glob_q s" using r by simp
qed

theorem deferred_request_witness:
  "req_timestamp (sim_request 5000 0) \<noteq> NIOS_PKT_RETUNE_NOW sim_platform
   \<and> req_module (sim_request 5000 0) = BLADERF_MODULE_RX sim_platform
   \<and> uint (count (glob_q (sim_state 0 0 pkt_retune_init))) < RETUNE_QUEUE_MAX
   \<and> count (glob_q (snd (pkt_retune sim_platform (sim_request 5000 0) (sim_state 0 0 pkt_retune_init)))) = 1
   \<and> resp_flags (fst (pkt_retune sim_platform (sim_request 5000 0) (sim_state 0 0 pkt_retune_init))) = 2
   \<and> resp_duration (fst (pkt_retune sim_platform (sim_request 5000 0) (sim_state 0 0 pkt_retune_init))) = 0
   \<and> uint (count (glob_q (sim_state 0 0 (pkt_retune_init\<lparr>count := 32\<rparr>)))) = RETUNE_QUEUE_MAX
   \<and> resp_flags (fst (pkt_retune sim_platform (sim_request 5000 0)
          (sim_state 0 0 (pkt_retune_init\<lparr>count := 32\<rparr>)))) AND 2 = 0
   \<and> resp_duration (fst (pkt_retune sim_platform (sim_request 5000 0)
          (sim_state 0 0 (pkt_retune_init\<lparr>count := 32\<rparr>)))) = 0"
proof -
  have ts: "req_timestamp (sim_request 5000 0) \<noteq> NIOS_PKT_RETUNE_NOW sim_platform"
    by (simp add: sim_request_def sim_platform_def)
  have m: "req_module (sim_request 5000 0) = BLADERF_MODULE_RX sim_platform
         \<or> req_module (sim_request 5000 0) = BLADERF_MODULE_TX sim_platform"
    by (simp add: sim_request_def sim_platform_def)
  have c0: "uint (count (glob_q (sim_state 0 0 pkt_retune_init))) < RETUNE_QUEUE_MAX"
    by (simp add: sim_state_def pkt_retune_init_def RETUNE_QUEUE_MAX_def)
  have c32: "uint (count (glob_q (sim_state 0 0 (pkt_retune_init\<lparr>count := 32\<rparr>)))) = RETUNE_QUEUE_MAX"
    by (simp add: sim_state_def RETUNE_QUEUE_MAX_def)
  have s: "NIOS_PKT_RETUNERESP_FLAG_SUCCESS sim_platform = 2"
    by (simp add: sim_platform_def)
  have k: "count (glob_q (sim_state 0 0 pkt_retune_init)) = 0"
    by (simp add: sim_state_def pkt_retune_init_def)
  show ?thesis
    using ts c0 c32
      deferred_request [OF ts m, of "sim_state 0 0 pkt_retune_init"]
      deferred_request [OF ts m, of "sim_state 0 0 (pkt_retune_init\<lparr>count := 32\<rparr>)"]
    by (simp add: s k) (simp add: sim_request_def sim_platform_def)
qed

text \<open>
  Claim C6. An immediate request (timestamp \<open>NIOS_PKT_RETUNE_NOW\<close>) with a valid
  module, for which the tuning primitive returns a nonzero status: in the response the
  success flag is clear, the duration-valid flag is clear and the duration is 0.
\<close>

theorem immediate_tune_failure:
  assumes ts: "req_timestamp b = NIOS_PKT_RETUNE_NOW pf"
    and m: "req_module b = BLADERF_MODULE_RX pf \<or> req_module b = BLADERF_MODULE_TX pf"
    and t0: "time_tamer_read pf (req_module b) (hw s) = (t_start, hw1)"
    and tune: "lms_set_precalculated_frequency pf (req_module b) (request_freq pf b) hw1 = (status, f1, hw2)"
    and fail: "status \<noteq> 0"
  shows "resp_flags (fst (pkt_retune pf b s)) AND NIOS_PKT_RETUNERESP_FLAG_SUCCESS pf = 0
       \<and> resp_flags (fst (pkt_retune pf b s)) AND NIOS_PKT_RETUNERESP_FLAG_TSVTUNE_VALID pf = 0
       \<and> resp_duration (fst (pkt_retune pf b s)) = 0"
proof -
  have "fst (pkt_retune pf b s) =
      \<lparr>resp_duration = 0, resp_vcocap_result = vcocap_result f1,
       resp_flags = NIOS_PKT_RETUNERESP_FLAG_SUCCESS pf AND NOT (NIOS_PKT_RETUNERESP_FLAG_SUCCESS pf)\<rparr>"
    using ts m t0 tune fail by (simp add: pkt_retune_def retune_out_def Let_def)
  then show ?thesis by simp
qed

theorem immediate_tune_failure_witness:
  "req_timestamp (sim_request 0 1) = NIOS_PKT_RETUNE_NOW sim_platform
   \<and> req_module (sim_request 0 1) = BLADERF_MODULE_TX sim_platform
   \<and> fst (lms_set_precalculated_frequency sim_platform 1 (request_freq sim_platform (sim_request 0 1))
         (snd (time_tamer_read sim_platform 1 (hw (sim_state (- 1) 0 pkt_retune_init))))) \<noteq> 0
   \<and> resp_flags (fst (pkt_retune sim_platform (sim_request 0 1) (sim_state (- 1) 0 pkt_retune_init))) AND 2 = 0
   \<and> resp_flags (fst (pkt_retune sim_platform (sim_request 0 1) (sim_state (- 1) 0 pkt_retune_init))) AND 1 = 0
   \<and> resp_duration (fst (pkt_retune sim_platform (sim_request 0 1) (sim_state (- 1) 0 pkt_retune_init))) = 0"
proof -
  let ?b = "sim_request 0 1" and ?s = "sim_state (- 1) 0 pkt_retune_init"
  let ?h1 = "(hw ?s)\<lparr>sim_clock := 101\<rparr>"
  have ts: "req_timestamp ?b = NIOS_PKT_RETUNE_NOW sim_platform"
    by (simp add: sim_request_def sim_platform_simps)
  have m: "req_module ?b = BLADERF_MODULE_RX sim_platform \<or> req_module ?b = BLADERF_MODULE_TX sim_platform"
    by (simp add: sim_request_def sim_platform_simps)
  have rm: "req_module ?b = 1" by (simp add: sim_request_def)
  have t0: "time_tamer_read sim_platform (req_module ?b) (hw ?s) = (100, ?h1)"
    by (simp add: sim_platform_simps sim_state_def)
  have tune: "lms_set_precalculated_frequency sim_platform (req_module ?b) (request_freq sim_platform ?b) ?h1
      = (- 1, (request_freq sim_platform ?b)\<lparr>vcocap_result := vcocap (request_freq sim_platform ?b)\<rparr>, ?h1)"
    by (simp add: sim_platform_simps sim_state_def)
  have fail: "(- 1 :: int) \<noteq> 0" by simp
  show ?thesis
    using immediate_tune_failure [OF ts m t0 tune fail] ts
    by (simp add: sim_platform_simps rm sim_state_def)
qed

text \<open>
  Claim C7. An immediate request with a valid module, for which the tuning primitive
  returns 0 and \<open>band_select\<close> a nonzero status: in the response the success flag is
  clear, the duration-valid flag is set, the duration is 0, and the capacitance result is
  the \<open>vcocap_result\<close> the tuning primitive left in the specification. The two flags
  are taken to be disjoint bits of the flags byte.
\<close>

theorem immediate_band_select_failure:
  assumes ts: "req_timestamp b = NIOS_PKT_RETUNE_NOW pf"
    and m: "req_module b = BLADERF_MODULE_RX pf \<or> req_module b = BLADERF_MODULE_TX pf"
    and t0: "time_tamer_read pf (req_module b) (hw s) = (t_start, hw1)"
    and tune: "lms_set_precalculated_frequency pf (req_module b) (request_freq pf b) hw1 = (0, f1, hw2)"
    and band: "band_select pf (req_module b) (req_low_band b) hw2 = (status2, hw3)"
    and fail: "status2 \<noteq> 0"
    and bits: "NIOS_PKT_RETUNERESP_FLAG_TSVTUNE_VALID pf AND NIOS_PKT_RETUNERESP_FLAG_SUCCESS pf = 0"
  shows "resp_flags (fst (pkt_retune pf b s)) AND NIOS_PKT_RETUNERESP_FLAG_SUCCESS pf = 0
       \<and> resp_flags (fst (pkt_retune pf b s)) AND NIOS_PKT_RETUNERESP_FLAG_TSVTUNE_VALID pf
            = NIOS_PKT_RETUNERESP_FLAG_TSVTUNE_VALID pf
       \<and> resp_duration (fst (pkt_retune pf b s)) = 0
       \<and> resp_vcocap_result (fst (pkt_retune pf b s)) = vcocap_result f1"
proof -
  let ?S = "NIOS_PKT_RETUNERESP_FLAG_SUCCESS pf" and ?V = "NIOS_PKT_RETUNERESP_FLAG_TSVTUNE_VALID pf"
  have r: "fst (pkt_retune pf b s) =
      \<lparr>resp_duration = 0, resp_vcocap_result = vcocap_result f1,
       resp_flags = (?S OR ?V) AND NOT ?S\<rparr>"
    using ts m t0 tune band fail by (simp add: pkt_retune_def retune_out_def Let_def)
  have a: "((?S OR ?V) AND NOT ?S) AND ?S = 0"
    by (simp add: and.assoc)
  have "(?S OR ?V) AND NOT ?S = ?V AND NOT ?S"
    by (simp add: bit.conj_disj_distrib2)
  also have "\<dots> = ?V"
    using bits by (auto simp add: bit_eq_iff bit_simps)
  finally have b: "((?S OR ?V) AND NOT ?S) AND ?V = ?V" by simp
  show ?thesis using r a b by simp
qed

theorem immediate_band_select_failure_witness:
  "req_timestamp (sim_request 0 0) = NIOS_PKT_RETUNE_NOW sim_platform
   \<and> req_module (sim_request 0 0) = BLADERF_MODULE_RX sim_platform
   \<and> NIOS_PKT_RETUNERESP_FLAG_TSVTUNE_VALID sim_platform AND NIOS_PKT_RETUNERESP_FLAG_SUCCESS sim_platform = 0
   \<and> resp_flags (fst (pkt_retune sim_platform (sim_request 0 0) (sim_state 0 (- 1) pkt_retune_init))) AND 2 = 0
   \<and> resp_flags (fst (pkt_retune sim_platform (sim_request 0 0) (sim_state 0 (- 1) pkt_retune_init))) AND 1 = 1
   \<and> resp_duration (fst (pkt_retune sim_platform (sim_request 0 0) (sim_state 0 (- 1) pkt_retune_init))) = 0
   \<and> resp_vcocap_result (fst (pkt_retune sim_platform (sim_request 0 0) (sim_state 0 (- 1) pkt_retune_init))) = 17"
proof -
  let ?b = "sim_request 0 0" and ?s = "sim_state 0 (- 1) pkt_retune_init"
  let ?h1 = "(hw ?s)\<lparr>sim_clock := 101\<rparr>"
  let ?f1 = "(request_freq sim_platform ?b)\<lparr>vcocap_result := vcocap (request_freq sim_platform ?b)\<rparr>"
  have ts: "req_timestamp ?b = NIOS_PKT_RETUNE_NOW sim_platform"
    by (simp add: sim_request_def sim_platform_simps)
  have m: "req_module ?b = BLADERF_MODULE_RX sim_platform \<or> req_module ?b = BLADERF_MODULE_TX sim_platform"
    by (simp add: sim_request_def sim_platform_simps)
  have rm: "req_module ?b = 0" by (simp add: sim_request_def)
  have t0: "time_tamer_read sim_platform (req_module ?b) (hw ?s) = (100, ?h1)"
    by (simp add: sim_platform_simps sim_state_def)
  have tune: "lms_set_precalculated_frequency sim_platform (req_module ?b) (request_freq sim_platform ?b) ?h1
      = (0, ?f1, ?h1)"
    by (simp add: sim_platform_simps sim_state_def)
  have band: "band_select sim_platform (req_module ?b) (req_low_band ?b) ?h1 = (- 1, ?h1)"
    by (simp add: sim_platform_simps sim_state_def)
  have fail: "(- 1 :: int) \<noteq> 0" by simp
  have bits: "NIOS_PKT_RETUNERESP_FLAG_TSVTUNE_VALID sim_platform AND NIOS_PKT_RETUNERESP_FLAG_SUCCESS sim_platform = 0"
    by (simp add: sim_platform_simps)
  have v: "vcocap_result ?f1 = 17"
    by (simp add: request_freq_def sim_request_def Let_def)
  show ?thesis
    using immediate_band_select_failure [OF ts m t0 tune band fail bits] ts bits
    by (simp add: sim_platform_simps rm v)
qed

text \<open>
  Claim C8. An immediate request with a valid module leaves the queue as it is: count,
  insert index, remove index and all slots are the same before and after \<open>pkt_retune\<close>.
\<close>

theorem immediate_request_leaves_queue:
  assumes ts: "req_timestamp b = NIOS_PKT_RETUNE_NOW pf"
    and m: "req_module b = BLADERF_MODULE_RX pf \<or> req_module b = BLADERF_MODULE_TX pf"
  shows "glob_q (snd (pkt_retune pf b s)) = glob_q s"
proof -
  obtain t0 hw1 where a: "time_tamer_read pf (req_module b) (hw s) = (t0, hw1)"
    by (cases "time_tamer_read pf (req_module b) (hw s)")
  obtain st f1 hw2 where b: "lms_set_precalculated_frequency pf (req_module b) (request_freq pf b) hw1 = (st, f1, hw2)"
    by (cases "lms_set_precalculated_frequency pf (req_module b) (request_freq pf b) hw1")
  obtain st2 hw3 where c: "band_select pf (req_module b) (req_low_band b) hw2 = (st2, hw3)"
    by (cases "band_select pf (req_module b) (req_low_band b) hw2")
  obtain t1 hw4 where d: "time_tamer_read pf (req_module b) hw3 = (t1, hw4)"
    by (cases "time_tamer_read pf (req_module b) hw3")
  show ?thesis
    using ts m a b c d by (simp add: pkt_retune_def retune_out_def Let_def)
qed

theorem immediate_request_leaves_queue_witness:
  "req_timestamp (sim_request 0 0) = NIOS_PKT_RETUNE_NOW sim_platform
   \<and> req_module (sim_request 0 0) = BLADERF_MODULE_RX sim_platform
   \<and> glob_q (snd (pkt_retune sim_platform (sim_request 0 0) (sim_state 0 0 pkt_retune_init))) = pkt_retune_init"
proof -
  let ?b = "sim_request 0 0"
  have ts: "req_timestamp ?b = NIOS_PKT_RETUNE_NOW sim_platform"
    by (simp add: sim_request_def sim_platform_simps)
  have m: "req_module ?b = BLADERF_MODULE_RX sim_platform \<or> req_module ?b = BLADERF_MODULE_TX sim_platform"
    by (simp add: sim_request_def sim_platform_simps)
  show ?thesis
    using immediate_request_leaves_queue [OF ts m, of "sim_state 0 0 pkt_retune_init"] ts
    by (simp add: sim_state_def sim_request_def sim_platform_simps)
qed

text \<open>
  Claim C10. On the deferred path the module is not checked: for a timestamp other than
  \<open>NIOS_PKT_RETUNE_NOW\<close> and any module value at all, when the queue holds fewer than
  32 entries the request is stored in the slot at the insert index, with the module of
  the request as it came, and the response carries the success flag. On the immediate
  path a module that is neither \<open>BLADERF_MODULE_RX\<close> nor \<open>BLADERF_MODULE_TX\<close> is
  rejected: the success flag is clear and nothing changes.
\<close>

theorem deferred_module_not_validated:
  assumes c: "uint (count (glob_q s)) < RETUNE_QUEUE_MAX"
    and i: "unat (ins_idx (glob_q s)) < length (entries (glob_q s))"
  shows "(req_timestamp b \<noteq> NIOS_PKT_RETUNE_NOW pf \<longrightarrow>
            glob_q (snd (pkt_retune pf b s)) =
              (glob_q s)\<lparr>entries := (entries (glob_q s))[unat (ins_idx (glob_q s)) :=
                             \<lparr>state = ENTRY_STATE_NEW, module = req_module b, freq = request_freq pf b\<rparr>],
                         ins_idx := idx_advance (ins_idx (glob_q s)),
                         count := count (glob_q s) + 1\<rparr>
          \<and> module (entries (glob_q (snd (pkt_retune pf b s))) ! unat (ins_idx (glob_q s))) = req_module b
          \<and> resp_flags (fst (pkt_retune pf b s)) = NIOS_PKT_RETUNERESP_FLAG_SUCCESS pf)
       \<and> (req_timestamp b = NIOS_PKT_RETUNE_NOW pf
            \<and> req_module b \<noteq> BLADERF_MODULE_RX pf \<and> req_module b \<noteq> BLADERF_MODULE_TX pf \<longrightarrow>
            resp_flags (fst (pkt_retune pf b s)) AND NIOS_PKT_RETUNERESP_FLAG_SUCCESS pf = 0
          \<and> snd (pkt_retune pf b s) = s)"
proof (intro conjI impI)
  assume ts: "req_timestamp b \<noteq> NIOS_PKT_RETUNE_NOW pf"
  let ?f = "request_freq pf b" and ?m = "req_module b"
  obtain qs q' where e: "enqueue_retune ?f ?m (glob_q s) = (qs, q')"
    by (cases "enqueue_retune ?f ?m (glob_q s)")
  from enqueue_size_not_full[OF c, of ?f ?m] e have qs: "qs \<noteq> QUEUE_FULL" by simp
  have q': "q' = (glob_q s)\<lparr>entries := (entries (glob_q s))[unat (ins_idx (glob_q s)) :=
                             \<lparr>state = ENTRY_STATE_NEW, module = ?m, freq = ?f\<rparr>],
                         ins_idx := idx_advance (ins_idx (glob_q s)),
                         count := count (glob_q s) + 1\<rparr>"
    using enqueue_queue[OF c, of ?f ?m] e i by (simp add: entry_written)
  have r: "pkt_retune pf b s =
      (\<lparr>resp_duration = 0, resp_vcocap_result = vcocap_result ?f,
        resp_flags = NIOS_PKT_RETUNERESP_FLAG_SUCCESS pf\<rparr>, s\<lparr>glob_q := q'\<rparr>)"
    using ts e qs by (simp add: pkt_retune_def retune_out_def Let_def)
  show "glob_q (snd (pkt_retune pf b s)) =
              (glob_q s)\<lparr>entries := (entries (glob_q s))[unat (ins_idx (glob_q s)) :=
                             \<lparr>state = ENTRY_STATE_NEW, module = req_module b, freq = request_freq pf b\<rparr>],
                         ins_idx := idx_advance (ins_idx (glob_q s)),
                         count := count (glob_q s) + 1\<rparr>"
    using r q' by simp
  show "module (entries (glob_q (snd (pkt_retune pf b s))) ! unat (ins_idx (glob_q s))) = req_module b"
    using r q' i by simp
  show "resp_flags (fst (pkt_retune pf b s)) = NIOS_PKT_RETUNERESP_FLAG_SUCCESS pf"
    using r by simp
next
  assume a: "req_timestamp b = NIOS_PKT_RETUNE_NOW pf
            \<and> req_module b \<noteq> BLADERF_MODULE_RX pf \<and> req_module b \<noteq> BLADERF_MODULE_TX pf"
  then have r: "pkt_retune pf b s =
      (\<lparr>resp_duration = 0, resp_vcocap_result = vcocap_result (request_freq pf b),
        resp_flags = NIOS_PKT_RETUNERESP_FLAG_SUCCESS pf AND NOT (NIOS_PKT_RETUNERESP_FLAG_SUCCESS pf)\<rparr>, s)"
    by (simp add: pkt_retune_def retune_out_def Let_def)
  show "resp_flags (fst (pkt_retune pf b s)) AND NIOS_PKT_RETUNERESP_FLAG_SUCCESS pf = 0"
    using r by simp
  show "snd (pkt_retune pf b s) = s" using r by simp
qed

theorem deferred_module_not_validated_witness:
  "uint (count (glob_q (sim_state 0 0 pkt_retune_init))) < RETUNE_QUEUE_MAX
   \<and> unat (ins_idx (glob_q (sim_state 0 0 pkt_retune_init))) < length (entries (glob_q (sim_state 0 0 pkt_retune_init)))
   \<and> req_timestamp (sim_request 5000 7) \<noteq> NIOS_PKT_RETUNE_NOW sim_platform
   \<and> req_module (sim_request 5000 7) \<noteq> BLADERF_MODULE_RX sim_platform
   \<and> req_module (sim_request 5000 7) \<noteq> BLADERF_MODULE_TX sim_platform
   \<and> module (entries (glob_q (snd (pkt_retune sim_platform (sim_request 5000 7) (sim_state 0 0 pkt_retune_init)))) ! 0) = 7
   \<and> count (glob_q (snd (pkt_retune sim_platform (sim_request 5000 7) (sim_state 0 0 pkt_retune_init)))) = 1
   \<and> resp_flags (fst (pkt_retune sim_platform (sim_request 5000 7) (sim_state 0 0 pkt_retune_init))) = 2
   \<and> req_timestamp (sim_request 0 7) = NIOS_PKT_RETUNE_NOW sim_platform
   \<and> resp_flags (fst (pkt_retune sim_platform (sim_request 0 7) (sim_state 0 0 pkt_retune_init))) AND 2 = 0"
proof -
  let ?s = "sim_state 0 0 pkt_retune_init"
  have q: "glob_q ?s = pkt_retune_init" by (simp add: sim_state_def)
  have c: "uint (count (glob_q ?s)) < RETUNE_QUEUE_MAX"
    by (simp add: q init_simps RETUNE_QUEUE_MAX_def)
  have i: "unat (ins_idx (glob_q ?s)) < length (entries (glob_q ?s))"
    by (simp add: q init_simps)
  have b1: "req_timestamp (sim_request 5000 7) \<noteq> NIOS_PKT_RETUNE_NOW sim_platform"
    "req_module (sim_request 5000 7) = 7"
    by (simp_all add: sim_request_def sim_platform_simps)
  have b2: "req_timestamp (sim_request 0 7) = NIOS_PKT_RETUNE_NOW sim_platform"
    "req_module (sim_request 0 7) = 7"
    by (simp_all add: sim_request_def sim_platform_simps)
  show ?thesis
    using c i b1 b2
      deferred_module_not_validated [OF c i, of "sim_request 5000 7" sim_platform]
      deferred_module_not_validated [OF c i, of "sim_request 0 7" sim_platform]
    by (simp add: q init_simps sim_platform_simps)
qed

end
